theory Spec2Isabelle
  imports Complex_Main "HOL-Library.Sublist"
begin

section \<open>Data model: the JSON tree held in memory\<close>

text \<open>
  \<^verbatim>\<open>json.load\<close> builds a tree of \<^verbatim>\<open>None\<close>, \<^verbatim>\<open>bool\<close>, \<^verbatim>\<open>int\<close>, \<^verbatim>\<open>float\<close>, \<^verbatim>\<open>str\<close>,
  \<^verbatim>\<open>list\<close> and \<^verbatim>\<open>dict\<close> objects; no list and no dictionary stands at two places of the
  tree. A \<^verbatim>\<open>dict\<close> keeps its keys in insertion order and \<^verbatim>\<open>main.py\<close> iterates over it, so
  it is an association list here; a dictionary never holds a key twice
  (\<open>records_distinct_keys\<close> below says so for the records). A character of a \<^verbatim>\<open>str\<close> is a
  code point; \<^typ>\<open>char\<close> has the 256 code points of Latin-1. A finite \<^verbatim>\<open>float\<close> is given
  by its exact rational value (Python compares an \<^verbatim>\<open>int\<close> and a \<^verbatim>\<open>float\<close> exactly, and
  \<^verbatim>\<open>-0.0\<close> is not told apart from \<^verbatim>\<open>0.0\<close>); \<^verbatim>\<open>json.load\<close> also accepts \<^verbatim>\<open>Infinity\<close>,
  \<^verbatim>\<open>-Infinity\<close> and \<^verbatim>\<open>NaN\<close>.
\<close>

datatype pyfloat = Finite rat | PosInf | NegInf | NaN

datatype json =
    JNull
  | JBool bool
  | JInt int
  | JFloat pyfloat
  | JStr string
  | JList "json list"
  | JObj "(string \<times> json) list"

type_synonym dict = "(string \<times> json) list"

datatype error = ValueError string | TypeError

text \<open>\<^verbatim>\<open>d[key]\<close> and \<^verbatim>\<open>key in d\<close> read the association list through \<^const>\<open>map_of\<close>;
  \<^verbatim>\<open>d[key] = v\<close> overwrites the value where the key stands and appends a new key at the end.\<close>

primrec setitem :: "string \<Rightarrow> json \<Rightarrow> dict \<Rightarrow> dict" where
  "setitem k v [] = [(k, v)]"
| "setitem k v (p # ps) = (if fst p = k then (k, v) # ps else p # setitem k v ps)"

text \<open>\<^verbatim>\<open>isinstance(value, str)\<close>, and \<^verbatim>\<open>isinstance(value, int)\<close>: \<^verbatim>\<open>bool\<close> is a subclass of
  \<^verbatim>\<open>int\<close> in Python, so \<^verbatim>\<open>True\<close> and \<^verbatim>\<open>False\<close> are instances of \<^verbatim>\<open>int\<close>.\<close>

fun isinstance_str :: "json \<Rightarrow> bool" where
  "isinstance_str (JStr s) = True"
| "isinstance_str v = False"

fun isinstance_int :: "json \<Rightarrow> bool" where
  "isinstance_int (JInt n) = True"
| "isinstance_int (JBool b) = True"
| "isinstance_int v = False"

fun isinstance_dict :: "json \<Rightarrow> bool" where
  "isinstance_dict (JObj d) = True"
| "isinstance_dict v = False"

subsection \<open>Strings: \<^verbatim>\<open>sub in s\<close> and \<^verbatim>\<open>s.lower()\<close>\<close>

primrec startswith :: "string \<Rightarrow> string \<Rightarrow> bool" where
  "startswith s [] = True"
| "startswith s (c # cs) = (case s of [] \<Rightarrow> False | d # ds \<Rightarrow> c = d \<and> startswith ds cs)"

primrec str_contains :: "string \<Rightarrow> string \<Rightarrow> bool" where
  "str_contains [] sub = (sub = [])"
| "str_contains (c # cs) sub = (startswith (c # cs) sub \<or> str_contains cs sub)"

text \<open>\<^verbatim>\<open>str.lower\<close> on Latin-1: the letters A to Z and the capital letters 192 to 222
  other than the multiplication sign 215 move up by 32; every other code point stays.\<close>

definition lower_char :: "char \<Rightarrow> char" where
  "lower_char c =
     (let n = (of_char c :: nat)
      in if (65 \<le> n \<and> n \<le> 90) \<or> (192 \<le> n \<and> n \<le> 222 \<and> n \<noteq> 215)
         then char_of (n + 32) else c)"

definition lower :: "string \<Rightarrow> string" where
  "lower s = map lower_char s"

subsection \<open>Tuples, hashing and equality\<close>

text \<open>
  \<^verbatim>\<open>tuple(r)\<close> iterates over \<^verbatim>\<open>r\<close>: the elements of a list, the one-character strings of a
  string, the keys of a dictionary; any other value is not iterable and raises
  \<^verbatim>\<open>TypeError\<close>.
\<close>

fun py_tuple :: "json \<Rightarrow> error + json list" where
  "py_tuple (JList xs) = Inr xs"
| "py_tuple (JStr s) = Inr (map (\<lambda>c. JStr [c]) s)"
| "py_tuple (JObj d) = Inr (map (\<lambda>p. JStr (fst p)) d)"
| "py_tuple v = Inl TypeError"

text \<open>Hashing a tuple hashes its elements; lists and dictionaries are unhashable.\<close>

fun hashable :: "json \<Rightarrow> bool" where
  "hashable (JList xs) = False"
| "hashable (JObj d) = False"
| "hashable v = True"

text \<open>
  \<^verbatim>\<open>==\<close> on hashable values: \<^verbatim>\<open>bool\<close>, \<^verbatim>\<open>int\<close> and \<^verbatim>\<open>float\<close> compare by numeric value
  (\<^verbatim>\<open>True == 1 == 1.0\<close>), strings compare by content, \<^verbatim>\<open>None\<close> equals \<^verbatim>\<open>None\<close> only.
  Two tuples are equal when they have the same length and their elements are identical or
  equal. \<^verbatim>\<open>json.load\<close> returns one and the same object for every \<^verbatim>\<open>NaN\<close> of the file, so
  inside a tuple a \<^verbatim>\<open>NaN\<close> of a loaded document equals a \<^verbatim>\<open>NaN\<close>, and nothing else. The hash
  of a value agrees with \<^verbatim>\<open>==\<close>, so membership in a \<^verbatim>\<open>set\<close> is membership up to this
  equality.
\<close>

fun numeric :: "json \<Rightarrow> pyfloat option" where
  "numeric (JBool b) = Some (Finite (if b then 1 else 0))"
| "numeric (JInt n) = Some (Finite (of_int n))"
| "numeric (JFloat f) = Some f"
| "numeric v = None"

fun py_eq :: "json \<Rightarrow> json \<Rightarrow> bool" where
  "py_eq JNull JNull = True"
| "py_eq (JStr s) (JStr t) = (s = t)"
| "py_eq a b =
     (case (numeric a, numeric b) of
        (Some x, Some y) \<Rightarrow> x = y
      | _ \<Rightarrow> False)"

definition tuple_eq :: "json list \<Rightarrow> json list \<Rightarrow> bool" where
  "tuple_eq s t = list_all2 py_eq s t"

text \<open>\<^verbatim>\<open>t in seen\<close>, the set \<^verbatim>\<open>seen\<close> held as the list of the tuples added to it.\<close>

definition in_seen :: "json list \<Rightarrow> json list list \<Rightarrow> bool" where
  "in_seen t seen = list_ex (\<lambda>s. tuple_eq s t) seen"

section \<open>The libraries: \<^verbatim>\<open>random\<close> and \<^verbatim>\<open>Faker\<close>\<close>

text \<open>
  The Mersenne Twister behind \<^verbatim>\<open>random\<close> and the providers of \<^verbatim>\<open>Faker\<close> are not part of
  the program. They are a parameter: a generator has a state (\<^typ>\<open>'g\<close> for the
  process-wide generator of \<^verbatim>\<open>random\<close>, \<^typ>\<open>'f\<close> for the generator shared by all
  \<^verbatim>\<open>Faker\<close> instances), and each call returns a value and the next state.
  \<^verbatim>\<open>random.random()\<close> returns a float \<open>k / 2^53\<close>, given here by its rational value.
\<close>

record ('g, 'f) library =
  random_seed :: "int \<Rightarrow> 'g"
  random_random :: "'g \<Rightarrow> rat \<times> 'g"
  random_randint :: "int \<Rightarrow> int \<Rightarrow> 'g \<Rightarrow> int \<times> 'g"
  Faker_seed :: "int \<Rightarrow> 'f"
  fake_name :: "'f \<Rightarrow> string \<times> 'f"
  fake_email :: "'f \<Rightarrow> string \<times> 'f"
  fake_phone_number :: "'f \<Rightarrow> string \<times> 'f"
  fake_address :: "'f \<Rightarrow> string \<times> 'f"
  fake_city :: "'f \<Rightarrow> string \<times> 'f"
  fake_word :: "'f \<Rightarrow> string \<times> 'f"
  fake_uuid4 :: "'f \<Rightarrow> string \<times> 'f"

text \<open>
  The state of the process outside the document: the two generator states, and the state
  that seeding the \<^verbatim>\<open>Faker\<close> generator with \<^verbatim>\<open>None\<close> installs from the operating system's
  entropy. When the program starts, \<open>rng\<close> is the state \<^verbatim>\<open>import random\<close> seeded from the
  operating system as well.
\<close>

record ('g, 'f) world =
  rng :: 'g
  faker :: 'f
  os_entropy :: 'f

section \<open>\<^verbatim>\<open>simplify_relationships\<close>\<close>

text \<open>
  \<^verbatim>\<open>
  seen = set()
  simplified_relationships = [r for r in simplified_relationships
                              if tuple(r) not in seen and not seen.add(tuple(r))]
  \<close>
  \<^verbatim>\<open>seen.add\<close> returns \<^verbatim>\<open>None\<close>, so an entry whose tuple is not yet in \<^verbatim>\<open>seen\<close> is kept
  and its tuple added.
\<close>

fun remove_redundant_loop :: "json list \<Rightarrow> json list list \<Rightarrow> error + json list" where
  "remove_redundant_loop [] seen = Inr []"
| "remove_redundant_loop (r # rs) seen =
     (case py_tuple r of
        Inl e \<Rightarrow> Inl e
      | Inr t \<Rightarrow>
          if \<not> list_all hashable t then Inl TypeError
          else if in_seen t seen then remove_redundant_loop rs seen
          else (case remove_redundant_loop rs (t # seen) of
                  Inl e \<Rightarrow> Inl e
                | Inr out \<Rightarrow> Inr (r # out)))"

text \<open>
  \<^verbatim>\<open>[r for r in simplified_relationships if random.random() > 0.2]\<close>. The float \<^verbatim>\<open>0.2\<close> lies
  strictly between two neighbouring values \<open>k / 2^53\<close>, as \<open>1 / 5\<close> does, so the comparison
  with the rational \<open>1 / 5\<close> decides the same.
\<close>

fun remove_non_essential_loop ::
  "('g, 'f) library \<Rightarrow> json list \<Rightarrow> 'g \<Rightarrow> json list \<times> 'g" where
  "remove_non_essential_loop L [] g = ([], g)"
| "remove_non_essential_loop L (r # rs) g =
     (let (x, g') = random_random L g;
          (out, g'') = remove_non_essential_loop L rs g'
      in (if x > 1 / 5 then r # out else out, g''))"

definition simplify_relationships ::
  "('g, 'f) library \<Rightarrow> json \<Rightarrow> bool \<Rightarrow> bool \<Rightarrow> ('g, 'f) world
     \<Rightarrow> error + (json \<times> ('g, 'f) world)" where
  "simplify_relationships L data remove_redundant remove_non_essential w =
     (case data of
        JObj d \<Rightarrow>
          (case map_of d ''relationships'' of
             None \<Rightarrow> Inr (data, w)
           | Some relationships \<Rightarrow>
               (case relationships of
                  JList rels \<Rightarrow>
                    (case (if remove_redundant then remove_redundant_loop rels [] else Inr rels) of
                       Inl e \<Rightarrow> Inl e
                     | Inr deduplicated \<Rightarrow>
                         (let (simplified, g') =
                                (if remove_non_essential
                                 then remove_non_essential_loop L deduplicated (rng w)
                                 else (deduplicated, rng w))
                          in Inr (JObj (setitem ''relationships'' (JList simplified) d),
                                  w\<lparr>rng := g'\<rparr>)))
                | _ \<Rightarrow> Inl (ValueError ''Relationships must be a list.''))
       )
      | _ \<Rightarrow> Inl (ValueError ''Input data must be a dictionary.''))"

section \<open>\<^verbatim>\<open>anonymize_data\<close>\<close>

text \<open>A call \<^verbatim>\<open>fake.name()\<close>, \<^verbatim>\<open>fake.email()\<close>, ...: the string it returns is the value to
  assign, and the \<^verbatim>\<open>Faker\<close> generator moves on.\<close>

definition call_fake ::
  "('f \<Rightarrow> string \<times> 'f) \<Rightarrow> ('g, 'f) world \<Rightarrow> json option \<times> ('g, 'f) world" where
  "call_fake provider w = (let (x, f') = provider (faker w) in (Some (JStr x), w\<lparr>faker := f'\<rparr>))"

text \<open>
  The body of \<^verbatim>\<open>for key, value in record.items()\<close>, in two steps. \<open>substitute\<close> is the
  \<^verbatim>\<open>if\<close>/\<^verbatim>\<open>elif\<close> chain on the level: it returns the value the branch taken assigns to
  \<^verbatim>\<open>record[key]\<close>, or \<open>None\<close> where no branch assigns. A level other than the three
  strings assigns nothing.
\<close>

definition substitute ::
  "('g, 'f) library \<Rightarrow> string \<Rightarrow> string \<Rightarrow> json \<Rightarrow> ('g, 'f) world
     \<Rightarrow> json option \<times> ('g, 'f) world" where
  "substitute L level key val w =
     (if level = ''low'' then
        (if isinstance_str val \<and> str_contains (lower key) ''name'' then call_fake (fake_name L) w
         else if isinstance_str val \<and> str_contains (lower key) ''email'' then call_fake (fake_email L) w
         else if isinstance_str val \<and> str_contains (lower key) ''phone''
           then call_fake (fake_phone_number L) w
         else (None, w))
      else if level = ''medium'' then
        (if isinstance_str val then
           (if str_contains (lower key) ''name'' then call_fake (fake_name L) w
            else if str_contains (lower key) ''email'' then call_fake (fake_email L) w
            else if str_contains (lower key) ''phone'' then call_fake (fake_phone_number L) w
            else if str_contains (lower key) ''address'' then call_fake (fake_address L) w
            else if str_contains (lower key) ''city'' then call_fake (fake_city L) w
            else call_fake (fake_word L) w)
         else if isinstance_int val then
           (let (n, g') = random_randint L 0 100 (rng w) in (Some (JInt n), w\<lparr>rng := g'\<rparr>))
         else (None, w))
      else if level = ''high'' then call_fake (fake_uuid4 L) w
      else (None, w))"

definition anonymize_item ::
  "('g, 'f) library \<Rightarrow> string \<Rightarrow> string \<Rightarrow> json \<Rightarrow> dict \<times> ('g, 'f) world
     \<Rightarrow> dict \<times> ('g, 'f) world" where
  "anonymize_item L level key val s =
     (let (record, w) = s
      in case substitute L level key val w of
           (None, w') \<Rightarrow> (record, w')
         | (Some x, w') \<Rightarrow> (setitem key x record, w'))"

text \<open>
  \<^verbatim>\<open>record.items()\<close> is a view of the dictionary being changed. The body assigns to the
  key just visited only, so the view yields each pair as it stood before the loop: the
  loop runs over the pairs of the record as it was, and changes the record in the state.
\<close>

fun items_loop ::
  "('g, 'f) library \<Rightarrow> string \<Rightarrow> dict \<Rightarrow> dict \<times> ('g, 'f) world \<Rightarrow> dict \<times> ('g, 'f) world" where
  "items_loop L level [] s = s"
| "items_loop L level ((key, val) # items) s =
     items_loop L level items (anonymize_item L level key val s)"

definition anonymize_record ::
  "('g, 'f) library \<Rightarrow> string \<Rightarrow> dict \<Rightarrow> ('g, 'f) world \<Rightarrow> dict \<times> ('g, 'f) world" where
  "anonymize_record L level record w = items_loop L level record (record, w)"

text \<open>\<^verbatim>\<open>for record in dataset\<close>: each record is checked when its turn comes, after the
  records before it have been rewritten. When a check fails the run raises; \<^verbatim>\<open>main\<close> then
  exits without saving, so the outcome is the error alone and the records rewritten so far
  are not kept.\<close>

fun records_loop ::
  "('g, 'f) library \<Rightarrow> string \<Rightarrow> json list \<Rightarrow> ('g, 'f) world
     \<Rightarrow> error + (json list \<times> ('g, 'f) world)" where
  "records_loop L level [] w = Inr ([], w)"
| "records_loop L level (record # records) w =
     (case record of
        JObj r \<Rightarrow>
          (let (r', w') = anonymize_record L level r w
           in case records_loop L level records w' of
                Inl e \<Rightarrow> Inl e
              | Inr (records', w'') \<Rightarrow> Inr (JObj r' # records', w''))
      | _ \<Rightarrow> Inl (ValueError ''Each record in the dataset should be a dictionary.''))"

text \<open>\<^verbatim>\<open>for dataset in datasets\<close>.\<close>

fun datasets_loop ::
  "('g, 'f) library \<Rightarrow> string \<Rightarrow> json list \<Rightarrow> ('g, 'f) world
     \<Rightarrow> error + (json list \<times> ('g, 'f) world)" where
  "datasets_loop L level [] w = Inr ([], w)"
| "datasets_loop L level (dataset # datasets) w =
     (case dataset of
        JList records \<Rightarrow>
          (case records_loop L level records w of
             Inl e \<Rightarrow> Inl e
           | Inr (records', w') \<Rightarrow>
               (case datasets_loop L level datasets w' of
                  Inl e \<Rightarrow> Inl e
                | Inr (datasets', w'') \<Rightarrow> Inr (JList records' # datasets', w'')))
      | _ \<Rightarrow> Inl (ValueError ''Each dataset should be a list.''))"

text \<open>
  \<^verbatim>\<open>random.seed(seed)\<close> runs when a seed is given; \<^verbatim>\<open>Faker.seed(seed)\<close> runs always, and
  with \<^verbatim>\<open>None\<close> it seeds from the operating system. The test \<^verbatim>\<open>'datasets' not in data\<close>
  is key membership on a dictionary; on a list it is membership of the string, on a string
  it is the substring test, and in both cases \<^verbatim>\<open>data['datasets']\<close> then raises
  \<^verbatim>\<open>TypeError\<close>; on any other value the test itself raises \<^verbatim>\<open>TypeError\<close>.
\<close>

definition seed_generators ::
  "('g, 'f) library \<Rightarrow> int option \<Rightarrow> ('g, 'f) world \<Rightarrow> ('g, 'f) world" where
  "seed_generators L seed w =
     (case seed of
        None \<Rightarrow> w\<lparr>faker := os_entropy w\<rparr>
      | Some n \<Rightarrow> w\<lparr>rng := random_seed L n, faker := Faker_seed L n\<rparr>)"

definition anonymize_data ::
  "('g, 'f) library \<Rightarrow> json \<Rightarrow> string \<Rightarrow> int option \<Rightarrow> ('g, 'f) world
     \<Rightarrow> error + (json \<times> ('g, 'f) world)" where
  "anonymize_data L data level seed w0 =
     (let w = seed_generators L seed w0
      in case data of
           JObj d \<Rightarrow>
             (case map_of d ''datasets'' of
                None \<Rightarrow> Inr (data, w)
              | Some datasets \<Rightarrow>
                  (case datasets of
                     JList dss \<Rightarrow>
                       (case datasets_loop L level dss w of
                          Inl e \<Rightarrow> Inl e
                        | Inr (dss', w') \<Rightarrow> Inr (JObj (setitem ''datasets'' (JList dss') d), w'))
                   | _ \<Rightarrow> Inl (ValueError ''Datasets must be a list.'')))
         | JList xs \<Rightarrow> (if JStr ''datasets'' \<in> set xs then Inl TypeError else Inr (data, w))
         | JStr s \<Rightarrow> (if str_contains s ''datasets'' then Inl TypeError else Inr (data, w))
         | _ \<Rightarrow> Inl TypeError)"

section \<open>\<^verbatim>\<open>main\<close>\<close>

record args =
  arg_remove_redundant :: bool
  arg_remove_non_essential :: bool
  arg_anonymize_data :: bool
  arg_anonymization_level :: string
  arg_seed :: "int option"

text \<open>The outcome of a run: the document written to the output file, or exit status 1.
  The loaded document is given; reading and writing the files are outside the model.\<close>

datatype outcome = Saved json | Exit1

definition main ::
  "('g, 'f) library \<Rightarrow> args \<Rightarrow> ('g, 'f) world \<Rightarrow> json \<Rightarrow> outcome" where
  "main L a w data =
     (if arg_anonymize_data a
         \<and> arg_anonymization_level a \<notin> set [''low'', ''medium'', ''high'']
      then Exit1
      else
        (case simplify_relationships L data (arg_remove_redundant a)
                (arg_remove_non_essential a) w of
           Inl e \<Rightarrow> Exit1
         | Inr (simplified_data, w') \<Rightarrow>
             (if arg_anonymize_data a
              then (case anonymize_data L simplified_data (arg_anonymization_level a)
                           (arg_seed a) w' of
                      Inl e \<Rightarrow> Exit1
                    | Inr (anonymized, w'') \<Rightarrow> Saved anonymized)
              else Saved simplified_data)))"

section \<open>The properties the specification names\<close>

subsection \<open>Deduplication\<close>





subsection \<open>The shape of \<^verbatim>\<open>datasets\<close>\<close>

text \<open>A sequence of sequences of mappings.\<close>

definition datasets_shape :: "json \<Rightarrow> bool" where
  "datasets_shape v =
     (case v of
        JList dss \<Rightarrow>
          list_all (\<lambda>ds. case ds of JList rs \<Rightarrow> list_all isinstance_dict rs | _ \<Rightarrow> False) dss
      | _ \<Rightarrow> False)"

definition passes_validation :: "dict \<Rightarrow> bool" where
  "passes_validation d =
     (case map_of d ''datasets'' of None \<Rightarrow> True | Some v \<Rightarrow> datasets_shape v)"

text \<open>What every Python dictionary satisfies: no key stands twice in a record.\<close>

definition distinct_keys :: "json \<Rightarrow> bool" where
  "distinct_keys r = (case r of JObj d \<Rightarrow> distinct (map fst d) | _ \<Rightarrow> True)"

definition records_distinct_keys :: "json list \<Rightarrow> bool" where
  "records_distinct_keys dss =
     list_all (\<lambda>ds. case ds of JList rs \<Rightarrow> list_all distinct_keys rs | _ \<Rightarrow> True) dss"

subsection \<open>Relating the records before and after\<close>

text \<open>
  \<open>record_rel R\<close> holds of two records with as many pairs, the pairs related by \<open>R\<close> position
  by position; \<open>dataset_rel R\<close> of two datasets with as many records, related likewise.
\<close>

definition record_rel ::
  "(string \<times> json \<Rightarrow> string \<times> json \<Rightarrow> bool) \<Rightarrow> json \<Rightarrow> json \<Rightarrow> bool" where
  "record_rel R a b = (case (a, b) of (JObj r, JObj r') \<Rightarrow> list_all2 R r r' | _ \<Rightarrow> False)"

definition dataset_rel ::
  "(string \<times> json \<Rightarrow> string \<times> json \<Rightarrow> bool) \<Rightarrow> json \<Rightarrow> json \<Rightarrow> bool" where
  "dataset_rel R a b =
     (case (a, b) of (JList rs, JList rs') \<Rightarrow> list_all2 (record_rel R) rs rs' | _ \<Rightarrow> False)"

text \<open>The pair after is the pair before with the value \<open>substitute\<close> assigns, if it
  assigns one, in some state of the generators.\<close>

definition item_rel ::
  "('g, 'f) library \<Rightarrow> string \<Rightarrow> string \<times> json \<Rightarrow> string \<times> json \<Rightarrow> bool" where
  "item_rel L level p q =
     (fst q = fst p \<and>
      (\<exists>w. snd q = (case fst (substitute L level (fst p) (snd p) w) of
                      None \<Rightarrow> snd p | Some x \<Rightarrow> x)))"

definition same_key :: "string \<times> json \<Rightarrow> string \<times> json \<Rightarrow> bool" where
  "same_key p q = (fst q = fst p)"

text \<open>Two values of \<^verbatim>\<open>datasets\<close> with as many datasets, as many records in each and the
  same keys, in the same order, in each record.\<close>

definition same_frame :: "json \<Rightarrow> json \<Rightarrow> bool" where
  "same_frame a b =
     (case (a, b) of
        (JList dss, JList dss') \<Rightarrow> list_all2 (dataset_rel same_key) dss dss'
      | _ \<Rightarrow> False)"

subsection \<open>The three levels\<close>

text \<open>Level \<^verbatim>\<open>low\<close>: a text value under a key whose lowercased name contains \<^verbatim>\<open>name\<close>,
  \<^verbatim>\<open>email\<close> or \<^verbatim>\<open>phone\<close> (the first that matches, in this order) becomes a string the
  matching provider returned; any other pair keeps its value.\<close>

definition low_item ::
  "('g, 'f) library \<Rightarrow> string \<times> json \<Rightarrow> string \<times> json \<Rightarrow> bool" where
  "low_item L p q =
     (fst q = fst p \<and>
      (if isinstance_str (snd p) \<and> str_contains (lower (fst p)) ''name''
         then (\<exists>f. snd q = JStr (fst (fake_name L f)))
       else if isinstance_str (snd p) \<and> str_contains (lower (fst p)) ''email''
         then (\<exists>f. snd q = JStr (fst (fake_email L f)))
       else if isinstance_str (snd p) \<and> str_contains (lower (fst p)) ''phone''
         then (\<exists>f. snd q = JStr (fst (fake_phone_number L f)))
       else snd q = snd p))"


text \<open>The format of a unique identifier: 36 characters, hyphens at positions 8, 13, 18
  and 23, lowercase hexadecimal digits elsewhere.\<close>

definition is_hex_digit :: "char \<Rightarrow> bool" where
  "is_hex_digit c = (c \<in> set ''0123456789abcdef'')"

definition is_uuid_format :: "string \<Rightarrow> bool" where
  "is_uuid_format s =
     (length s = 36 \<and>
      list_all (\<lambda>(i, c). if i \<in> set [8, 13, 18, 23] then c = CHR ''-'' else is_hex_digit c)
        (enumerate 0 s))"

text \<open>Level \<^verbatim>\<open>high\<close>: every value becomes a string \<^verbatim>\<open>fake.uuid4()\<close> returned, in that
  format.\<close>

definition high_item ::
  "('g, 'f) library \<Rightarrow> string \<times> json \<Rightarrow> string \<times> json \<Rightarrow> bool" where
  "high_item L p q =
     (fst q = fst p
      \<and> (\<exists>f. snd q = JStr (fst (fake_uuid4 L f)))
      \<and> (\<exists>u. snd q = JStr u \<and> is_uuid_format u))"

text \<open>
  Freshly generated: the values of a document, read in the order the loops visit them
  (dataset by dataset, record by record, pair by pair), and the identifiers that \<open>n\<close>
  successive calls of \<^verbatim>\<open>fake.uuid4()\<close> return from a state of the \<^verbatim>\<open>Faker\<close> generator, each
  call starting where the one before left the generator.
\<close>

definition record_items :: "json \<Rightarrow> (string \<times> json) list" where
  "record_items r = (case r of JObj d \<Rightarrow> d | _ \<Rightarrow> [])"

definition dataset_items :: "json \<Rightarrow> (string \<times> json) list" where
  "dataset_items ds = (case ds of JList rs \<Rightarrow> concat (map record_items rs) | _ \<Rightarrow> [])"

definition all_items :: "json list \<Rightarrow> (string \<times> json) list" where
  "all_items dss = concat (map dataset_items dss)"

fun uuid4_calls :: "('g, 'f) library \<Rightarrow> 'f \<Rightarrow> nat \<Rightarrow> string list \<times> 'f" where
  "uuid4_calls L f 0 = ([], f)"
| "uuid4_calls L f (Suc n) =
     (let (u, f') = fake_uuid4 L f;
          (us, f'') = uuid4_calls L f' n
      in (u # us, f''))"

subsection \<open>What the libraries promise\<close>


definition uuid4_contract :: "('g, 'f) library \<Rightarrow> bool" where
  "uuid4_contract L = (\<forall>f. is_uuid_format (fst (fake_uuid4 L f)))"

section \<open>A small library and documents to run the program on\<close>

text \<open>Generators whose state is a counter: \<^verbatim>\<open>random()\<close> returns 0.5 in an even state and
  0.1 in an odd one, \<^verbatim>\<open>randint(a, b)\<close> walks through the range, the providers return fixed
  strings, and seeding with \<open>n\<close> sets the counter to \<open>|n|\<close>.\<close>

definition demo_library :: "(nat, nat) library" where
  "demo_library =
     \<lparr> random_seed = (\<lambda>n. nat \<bar>n\<bar>),
       random_random = (\<lambda>g. (if even g then 1 / 2 else 1 / 10, Suc g)),
       random_randint = (\<lambda>a b g. (a + int g mod (b - a + 1), Suc g)),
       Faker_seed = (\<lambda>n. nat \<bar>n\<bar>),
       fake_name = (\<lambda>f. (''Jane Doe'', Suc f)),
       fake_email = (\<lambda>f. (''jane@example.org'', Suc f)),
       fake_phone_number = (\<lambda>f. (''555-0100'', Suc f)),
       fake_address = (\<lambda>f. (''1 Main Street'', Suc f)),
       fake_city = (\<lambda>f. (''Springfield'', Suc f)),
       fake_word = (\<lambda>f. (''lorem'', Suc f)),
       fake_uuid4 = (\<lambda>f. (''01234567-89ab-4cde-8f01-23456789abcd'', Suc f)) \<rparr>"

text \<open>The same library with identifiers that differ from call to call: the last digit
  follows the state of the generator.\<close>

definition demo_uuid :: "nat \<Rightarrow> string" where
  "demo_uuid f = ''01234567-89ab-4cde-8f01-23456789abc'' @ [''0123456789abcdef'' ! (f mod 16)]"

definition demo_uuid_library :: "(nat, nat) library" where
  "demo_uuid_library = demo_library \<lparr> fake_uuid4 := (\<lambda>f. (demo_uuid f, Suc f)) \<rparr>"

definition demo_world :: "nat \<Rightarrow> (nat, nat) world" where
  "demo_world g = \<lparr> rng = g, faker = 0, os_entropy = 7 \<rparr>"

definition demo_relationships :: "json list" where
  "demo_relationships =
     [JList [JStr ''a'', JStr ''b''], JList [JStr ''a'', JStr ''b''],
      JList [JStr ''c'', JStr ''d'']]"

definition demo_record :: json where
  "demo_record =
     JObj [(''user_name'', JStr ''Alice''), (''age'', JInt 30), (''active'', JBool True),
           (''score'', JFloat (Finite (3 / 2))), (''note'', JStr ''n/a'')]"

definition demo_datasets :: "json list" where
  "demo_datasets = [JList [demo_record]]"

definition demo_document :: dict where
  "demo_document =
     [(''relationships'', JList demo_relationships), (''datasets'', JList demo_datasets)]"

text \<open>\<^verbatim>\<open>--remove-non-essential --anonymize-data --seed 42\<close>, the level left at its default.\<close>

definition demo_args :: args where
  "demo_args =
     \<lparr> arg_remove_redundant = False, arg_remove_non_essential = True,
       arg_anonymize_data = True, arg_anonymization_level = ''medium'',
       arg_seed = Some 42 \<rparr>"

section \<open>Dictionaries\<close>

lemma setitem_same: "setitem k v (setitem k v' d) = setitem k v d"
  by (induction d) auto

lemma map_of_setitem: "map_of (setitem k v d) = (map_of d)(k \<mapsto> v)"
  by (induction d) auto

lemma keys_setitem: "k \<in> fst ` set d \<Longrightarrow> map fst (setitem k v d) = map fst d"
  by (induction d) auto

lemma setitem_append_fresh:
  "k \<notin> fst ` set pre \<Longrightarrow> setitem k x (pre @ (k, v) # rest) = pre @ (k, x) # rest"
  by (induction pre) auto

section \<open>The relationship simplifier\<close>

text \<open>
  \<^bold>\<open>C7.\<close> A document that is a mapping without the key \<^verbatim>\<open>relationships\<close> comes back
  unchanged, whatever the two flags are; the generators are not touched either.
\<close>

theorem simplify_without_relationships:
  "map_of d ''relationships'' = None \<Longrightarrow>
   simplify_relationships L (JObj d) remove_redundant remove_non_essential w = Inr (JObj d, w)"
  by (simp add: simplify_relationships_def)

theorem simplify_without_relationships_witness:
  "map_of [(''datasets'', JList demo_datasets)] ''relationships'' = None \<and>
   simplify_relationships demo_library (JObj [(''datasets'', JList demo_datasets)]) True True
       (demo_world 0)
     = Inr (JObj [(''datasets'', JList demo_datasets)], demo_world 0)"
  using simplify_without_relationships
    [of "[(''datasets'', JList demo_datasets)]" demo_library True True "demo_world 0"]
  by simp

text \<open>
  \<^bold>\<open>C10.\<close> Deduplication can raise beyond the documented validation: with
  \<^verbatim>\<open>remove_redundant\<close> set, a \<^verbatim>\<open>relationships\<close> list holding an entry that is not iterable
  (the number 5), or an entry with a nested list, or an entry with a mapping as element,
  makes \<^verbatim>\<open>simplify_relationships\<close> raise \<^verbatim>\<open>TypeError\<close> from the tuple conversion or its
  hashing, not the \<^verbatim>\<open>ValueError\<close> of the validation, and it returns no document.
\<close>

theorem remove_redundant_raises_TypeError:
  "simplify_relationships L (JObj [(''relationships'', JList [JInt 5])]) True rn w
     = Inl TypeError
   \<and> simplify_relationships L
        (JObj [(''relationships'', JList [JList [JList [JStr ''a''], JStr ''b'']])]) True rn w
     = Inl TypeError
   \<and> simplify_relationships L
        (JObj [(''relationships'', JList [JList [JObj [(''a'', JInt 1)]]])]) True rn w
     = Inl TypeError"
  by (simp add: simplify_relationships_def)

text \<open>The loop keeps every entry of a list it has produced.\<close>

lemma remove_redundant_loop_fixpoint:
  "remove_redundant_loop rs seen = Inr out \<Longrightarrow> remove_redundant_loop out seen = Inr out"
proof (induction rs arbitrary: seen out)
  case Nil
  then show ?case by simp
next
  case (Cons r rs)
  then show ?case
    by (auto split: sum.splits if_splits)
qed

text \<open>
  \<^bold>\<open>C8.\<close> Deduplication is idempotent. Running \<^verbatim>\<open>simplify_relationships\<close> with
  \<^verbatim>\<open>remove_redundant\<close> set and \<^verbatim>\<open>remove_non_essential\<close> unset on the document a first such
  run returned has the outcome of the first run: the same document, and the same state of
  the generators. Where the first run raises there is no second one, and the outcome of
  both is that error.
\<close>

theorem remove_redundant_idempotent:
  "(case simplify_relationships L data True False w of
      Inl e \<Rightarrow> Inl e
    | Inr (once, w') \<Rightarrow> simplify_relationships L once True False w')
   = simplify_relationships L data True False w"
proof (cases "simplify_relationships L data True False w")
  case (Inl e)
  then show ?thesis by simp
next
  case (Inr p)
  then obtain d rels out where
    data: "data = JObj d" and
    rel: "map_of d ''relationships'' = None \<or>
          (map_of d ''relationships'' = Some (JList rels)
           \<and> remove_redundant_loop rels [] = Inr out
           \<and> p = (JObj (setitem ''relationships'' (JList out) d), w))"
    by (auto simp: simplify_relationships_def split: json.splits option.splits sum.splits)
  from rel show ?thesis
  proof
    assume "map_of d ''relationships'' = None"
    then show ?thesis using data by (simp add: simplify_relationships_def)
  next
    assume a: "map_of d ''relationships'' = Some (JList rels)
           \<and> remove_redundant_loop rels [] = Inr out
           \<and> p = (JObj (setitem ''relationships'' (JList out) d), w)"
    then have "remove_redundant_loop out [] = Inr out"
      by (blast intro: remove_redundant_loop_fixpoint)
    with a Inr show ?thesis
      by (simp add: simplify_relationships_def map_of_setitem setitem_same)
  qed
qed

text \<open>A run where the first application returns: the example document, deduplicated
  once and then again.\<close>

theorem remove_redundant_idempotent_witness:
  "simplify_relationships demo_library (JObj demo_document) True False (demo_world 0)
     = Inr (JObj [(''relationships'',
                   JList [JList [JStr ''a'', JStr ''b''], JList [JStr ''c'', JStr ''d'']]),
                  (''datasets'', JList demo_datasets)], demo_world 0)
   \<and> simplify_relationships demo_library
        (JObj [(''relationships'',
                JList [JList [JStr ''a'', JStr ''b''], JList [JStr ''c'', JStr ''d'']]),
               (''datasets'', JList demo_datasets)]) True False (demo_world 0)
     = Inr (JObj [(''relationships'',
                   JList [JList [JStr ''a'', JStr ''b''], JList [JStr ''c'', JStr ''d'']]),
                  (''datasets'', JList demo_datasets)], demo_world 0)"
proof -
  have once: "simplify_relationships demo_library (JObj demo_document) True False (demo_world 0)
     = Inr (JObj [(''relationships'',
                   JList [JList [JStr ''a'', JStr ''b''], JList [JStr ''c'', JStr ''d'']]),
                  (''datasets'', JList demo_datasets)], demo_world 0)"
    by (simp add: simplify_relationships_def demo_document_def demo_relationships_def
        in_seen_def tuple_eq_def demo_world_def)
  with remove_redundant_idempotent[of demo_library "JObj demo_document" "demo_world 0"]
  show ?thesis by simp
qed

subsection \<open>Deduplication keeps the first occurrences\<close>









section \<open>The anonymizer\<close>

subsection \<open>What the loops do to a document of the right shape\<close>

lemma record_rel_JObj: "record_rel R (JObj r) (JObj r') = list_all2 R r r'"
  by (simp add: record_rel_def)

lemma dataset_rel_JList: "dataset_rel R (JList rs) (JList rs') = list_all2 (record_rel R) rs rs'"
  by (simp add: dataset_rel_def)

lemma anonymize_item_cases:
  "anonymize_item L level k v (r, w) =
     (case fst (substitute L level k v w) of None \<Rightarrow> r | Some x \<Rightarrow> setitem k x r,
      snd (substitute L level k v w))"
  by (simp add: anonymize_item_def split: prod.splits option.splits)

lemma items_loop_keys:
  "fst ` set items \<subseteq> fst ` set r \<Longrightarrow>
   map fst (fst (items_loop L level items (r, w))) = map fst r"
proof (induction items arbitrary: r w)
  case Nil
  then show ?case by simp
next
  case (Cons p items)
  obtain k v where p: "p = (k, v)" by (cases p)
  obtain r1 w1 where step: "anonymize_item L level k v (r, w) = (r1, w1)"
    by (cases "anonymize_item L level k v (r, w)")
  from Cons.prems p have k: "k \<in> fst ` set r" by simp
  have keys: "map fst r1 = map fst r"
  proof (cases "fst (substitute L level k v w)")
    case None
    with step show ?thesis by (simp add: anonymize_item_cases)
  next
    case (Some x)
    with step keys_setitem[OF k] show ?thesis by (auto simp: anonymize_item_cases)
  qed
  then have "fst ` set r1 = fst ` set r"
    by (metis list.set_map)
  with Cons.prems have "fst ` set items \<subseteq> fst ` set r1" by simp
  from Cons.IH[OF this] show ?case by (simp add: p step keys)
qed

lemma items_loop_rel:
  assumes "distinct (map fst items)" and "fst ` set pre \<inter> fst ` set items = {}"
  shows "\<exists>items' w'. items_loop L level items (pre @ items, w) = (pre @ items', w')
           \<and> list_all2 (item_rel L level) items items'"
  using assms
proof (induction items arbitrary: pre w)
  case Nil
  then show ?case by simp
next
  case (Cons p items)
  obtain k v where p: "p = (k, v)" by (cases p)
  define nv where "nv = (case fst (substitute L level k v w) of None \<Rightarrow> v | Some x \<Rightarrow> x)"
  define w1 where "w1 = snd (substitute L level k v w)"
  from Cons.prems p have fresh: "k \<notin> fst ` set pre" by auto
  have step: "anonymize_item L level k v (pre @ (k, v) # items, w) = ((pre @ [(k, nv)]) @ items, w1)"
    using fresh by (simp add: anonymize_item_cases nv_def w1_def setitem_append_fresh split: option.splits)
  from Cons.prems p have d: "distinct (map fst items)"
    and disj: "fst ` set (pre @ [(k, nv)]) \<inter> fst ` set items = {}"
    by auto
  from Cons.IH[OF d disj, of w1] obtain items' w' where
    run: "items_loop L level items ((pre @ [(k, nv)]) @ items, w1) = ((pre @ [(k, nv)]) @ items', w')"
    and rel: "list_all2 (item_rel L level) items items'"
    by blast
  have "item_rel L level p (k, nv)"
    unfolding item_rel_def p nv_def by (intro conjI exI[of _ w]) (simp_all split: option.splits)
  with run rel step show ?case
    by (auto simp: p intro!: exI[of _ "(k, nv) # items'"])
qed

lemma anonymize_record_rel:
  "distinct (map fst r) \<Longrightarrow>
   \<exists>r' w'. anonymize_record L level r w = (r', w') \<and> list_all2 (item_rel L level) r r'"
  using items_loop_rel[of r "[]" L level w] by (simp add: anonymize_record_def)

lemma anonymize_record_keys:
  "list_all2 same_key r (fst (anonymize_record L level r w))"
proof -
  have "map fst (fst (anonymize_record L level r w)) = map fst r"
    by (simp add: anonymize_record_def items_loop_keys)
  then show ?thesis
    by (simp add: list_all2_conv_all_nth same_key_def list_eq_iff_nth_eq)
qed

lemma records_loop_rel:
  assumes "list_all isinstance_dict rs" and "list_all distinct_keys rs"
  shows "\<exists>rs' w'. records_loop L level rs w = Inr (rs', w')
           \<and> list_all2 (record_rel (item_rel L level)) rs rs'"
  using assms
proof (induction rs arbitrary: w)
  case Nil
  then show ?case by simp
next
  case (Cons a rs)
  from Cons.prems obtain r where a: "a = JObj r" and dr: "distinct (map fst r)"
    by (cases a) (auto simp: distinct_keys_def)
  from anonymize_record_rel[OF dr, of L level w] obtain r' w1 where
    r': "anonymize_record L level r w = (r', w1)" "list_all2 (item_rel L level) r r'"
    by blast
  from Cons.prems have "list_all isinstance_dict rs" "list_all distinct_keys rs" by simp_all
  from Cons.IH[OF this, of w1] obtain rs' w' where
    "records_loop L level rs w1 = Inr (rs', w')" "list_all2 (record_rel (item_rel L level)) rs rs'"
    by blast
  with r' a show ?case by (simp add: record_rel_JObj)
qed

lemma records_loop_keys:
  assumes "list_all isinstance_dict rs"
  shows "\<exists>rs' w'. records_loop L level rs w = Inr (rs', w')
           \<and> list_all2 (record_rel same_key) rs rs'"
  using assms
proof (induction rs arbitrary: w)
  case Nil
  then show ?case by simp
next
  case (Cons a rs)
  from Cons.prems obtain r where a: "a = JObj r"
    by (cases a) auto
  obtain r' w1 where r': "anonymize_record L level r w = (r', w1)"
    by (cases "anonymize_record L level r w")
  with anonymize_record_keys[of r L level w] have k: "list_all2 same_key r r'" by simp
  from Cons.prems have "list_all isinstance_dict rs" by simp
  from Cons.IH[OF this, of w1] obtain rs' w' where
    "records_loop L level rs w1 = Inr (rs', w')" "list_all2 (record_rel same_key) rs rs'"
    by blast
  with r' a k show ?case by (simp add: record_rel_JObj)
qed

lemma datasets_loop_rel:
  assumes "datasets_shape (JList dss)" and "records_distinct_keys dss"
  shows "\<exists>dss' w'. datasets_loop L level dss w = Inr (dss', w')
           \<and> list_all2 (dataset_rel (item_rel L level)) dss dss'"
  using assms
proof (induction dss arbitrary: w)
  case Nil
  then show ?case by simp
next
  case (Cons a dss)
  from Cons.prems obtain rs where a: "a = JList rs"
    and rs: "list_all isinstance_dict rs" "list_all distinct_keys rs"
    by (cases a) (auto simp: datasets_shape_def records_distinct_keys_def)
  from records_loop_rel[OF rs, of L level w] obtain rs' w1 where
    rs': "records_loop L level rs w = Inr (rs', w1)" "list_all2 (record_rel (item_rel L level)) rs rs'"
    by blast
  from Cons.prems have "datasets_shape (JList dss)" "records_distinct_keys dss"
    by (simp_all add: datasets_shape_def records_distinct_keys_def)
  from Cons.IH[OF this, of w1] obtain dss' w' where
    "datasets_loop L level dss w1 = Inr (dss', w')" "list_all2 (dataset_rel (item_rel L level)) dss dss'"
    by blast
  with rs' a show ?case by (simp add: dataset_rel_JList)
qed

lemma datasets_loop_keys:
  assumes "datasets_shape (JList dss)"
  shows "\<exists>dss' w'. datasets_loop L level dss w = Inr (dss', w')
           \<and> list_all2 (dataset_rel same_key) dss dss'"
  using assms
proof (induction dss arbitrary: w)
  case Nil
  then show ?case by simp
next
  case (Cons a dss)
  from Cons.prems obtain rs where a: "a = JList rs"
    and rs: "list_all isinstance_dict rs"
    by (cases a) (auto simp: datasets_shape_def)
  from records_loop_keys[OF rs, of L level w] obtain rs' w1 where
    rs': "records_loop L level rs w = Inr (rs', w1)" "list_all2 (record_rel same_key) rs rs'"
    by blast
  from Cons.prems have "datasets_shape (JList dss)"
    by (simp_all add: datasets_shape_def)
  from Cons.IH[OF this, of w1] obtain dss' w' where
    "datasets_loop L level dss w1 = Inr (dss', w')" "list_all2 (dataset_rel same_key) dss dss'"
    by blast
  with rs' a show ?case by (simp add: dataset_rel_JList)
qed

lemma anonymize_data_rel:
  assumes "map_of d ''datasets'' = Some (JList dss)"
    and "datasets_shape (JList dss)" and "records_distinct_keys dss"
  shows "\<exists>dss' w'. anonymize_data L (JObj d) level seed w
             = Inr (JObj (setitem ''datasets'' (JList dss') d), w')
           \<and> list_all2 (dataset_rel (item_rel L level)) dss dss'"
proof -
  from datasets_loop_rel[OF assms(2,3), of L level "seed_generators L seed w"]
  obtain dss' w' where
    "datasets_loop L level dss (seed_generators L seed w) = Inr (dss', w')"
    "list_all2 (dataset_rel (item_rel L level)) dss dss'"
    by blast
  with assms(1) show ?thesis by (auto simp: anonymize_data_def)
qed

lemma dataset_rel_mono:
  assumes "\<And>p q. R p q \<Longrightarrow> S p q"
  shows "list_all2 (dataset_rel R) dss dss' \<Longrightarrow> list_all2 (dataset_rel S) dss dss'"
proof -
  have rec: "\<And>a b. record_rel R a b \<Longrightarrow> record_rel S a b"
    unfolding record_rel_def
    by (auto split: json.splits elim!: list_all2_mono simp: assms)
  have "\<And>a b. dataset_rel R a b \<Longrightarrow> dataset_rel S a b"
    unfolding dataset_rel_def
    by (auto split: json.splits elim!: list_all2_mono simp: rec)
  then show "list_all2 (dataset_rel R) dss dss' \<Longrightarrow> list_all2 (dataset_rel S) dss dss'"
    by (auto elim!: list_all2_mono)
qed

lemma records_loop_validation:
  "(case records_loop L level rs w of
      Inl e \<Rightarrow> (\<exists>msg. e = ValueError msg) \<and> \<not> list_all isinstance_dict rs
    | Inr p \<Rightarrow> list_all isinstance_dict rs)"
proof (induction rs arbitrary: w)
  case Nil
  then show ?case by simp
next
  case (Cons a rs)
  show ?case
  proof (cases a)
    case (JObj r)
    obtain r' w1 where r': "anonymize_record L level r w = (r', w1)"
      by (cases "anonymize_record L level r w")
    from Cons.IH[of w1] show ?thesis
      by (auto simp: JObj r' split: sum.splits)
  qed simp_all
qed

lemma datasets_loop_validation:
  "(case datasets_loop L level dss w of
      Inl e \<Rightarrow> (\<exists>msg. e = ValueError msg) \<and> \<not> datasets_shape (JList dss)
    | Inr p \<Rightarrow> datasets_shape (JList dss))"
proof (induction dss arbitrary: w)
  case Nil
  then show ?case by (simp add: datasets_shape_def)
next
  case (Cons a dss)
  show ?case
  proof (cases a)
    case (JList rs)
    show ?thesis
    proof (cases "records_loop L level rs w")
      case (Inl e)
      with records_loop_validation[where L=L and level=level and rs=rs and w=w] show ?thesis
        by (auto simp: JList datasets_shape_def)
    next
      case (Inr p)
      obtain rs' w1 where p: "p = (rs', w1)" by (cases p)
      from Inr records_loop_validation[where L=L and level=level and rs=rs and w=w] have "list_all isinstance_dict rs" by simp
      with Cons.IH[of w1] show ?thesis
        by (auto simp: JList Inr p datasets_shape_def split: sum.splits)
    qed
  qed (simp_all add: datasets_shape_def)
qed

subsection \<open>The example document and the example library\<close>

lemma demo_lookup: "map_of demo_document ''datasets'' = Some (JList demo_datasets)"
  by (simp add: demo_document_def)

lemma demo_shape: "datasets_shape (JList demo_datasets)"
  by (simp add: datasets_shape_def demo_datasets_def demo_record_def)

lemma demo_distinct: "records_distinct_keys demo_datasets"
  by (simp add: records_distinct_keys_def distinct_keys_def demo_datasets_def demo_record_def)


lemma uuid_format_last_digit:
  "is_hex_digit c \<Longrightarrow> is_uuid_format (''01234567-89ab-4cde-8f01-23456789abc'' @ [c])"
  by (simp add: is_uuid_format_def is_hex_digit_def enumerate_eq_zip upt_rec)

lemma demo_uuid_format: "is_uuid_format (demo_uuid f)"
proof -
  have "is_hex_digit (''0123456789abcdef'' ! (f mod 16))"
    unfolding is_hex_digit_def by (rule nth_mem) simp
  then show ?thesis
    unfolding demo_uuid_def by (rule uuid_format_last_digit)
qed

lemma demo_uuid_library_contract: "uuid4_contract demo_uuid_library"
  by (simp add: uuid4_contract_def demo_uuid_library_def demo_uuid_format)

lemma demo_uuid4_calls:
  "uuid4_calls demo_uuid_library 42 (Suc (Suc (Suc (Suc (Suc 0)))))
     = ([''01234567-89ab-4cde-8f01-23456789abca'', ''01234567-89ab-4cde-8f01-23456789abcb'',
         ''01234567-89ab-4cde-8f01-23456789abcc'', ''01234567-89ab-4cde-8f01-23456789abcd'',
         ''01234567-89ab-4cde-8f01-23456789abce''], 47)"
  by (simp add: demo_uuid_library_def demo_uuid_def)

lemma demo_all_items: "length (all_items demo_datasets) = Suc (Suc (Suc (Suc (Suc 0))))"
  by (simp add: all_items_def dataset_items_def record_items_def demo_datasets_def demo_record_def)

subsection \<open>The value each level assigns\<close>

lemma call_fake_fst: "fst (call_fake provider w) = Some (JStr (fst (provider (faker w))))"
  by (simp add: call_fake_def split: prod.splits)

lemma item_rel_low: "item_rel L ''low'' p q \<Longrightarrow> low_item L p q"
  unfolding item_rel_def low_item_def substitute_def
  by (auto simp: call_fake_fst)

lemma item_rel_high:
  assumes "uuid4_contract L"
  shows "item_rel L ''high'' p q \<Longrightarrow> high_item L p q"
  using assms unfolding item_rel_def high_item_def substitute_def uuid4_contract_def
  by (auto simp: call_fake_fst)





subsection \<open>Level \<^verbatim>\<open>low\<close>\<close>

text \<open>
  \<^bold>\<open>C5.\<close> At level \<^verbatim>\<open>low\<close>, on a document whose \<^verbatim>\<open>datasets\<close> is a list of lists of
  records, the run returns the document with every record rewritten pair by pair: a text
  value whose key's lowercased name contains \<^verbatim>\<open>name\<close>, \<^verbatim>\<open>email\<close> or \<^verbatim>\<open>phone\<close> is replaced by
  the string the name, email or phone-number provider returned, and every other pair (a
  value that is not text, or a text value under a key matching none of the three) keeps its
  value. Keys, and the numbers of pairs, records and datasets, stay as they were.
\<close>

theorem low_touches_matching_text_only:
  assumes "map_of d ''datasets'' = Some (JList dss)"
    and "datasets_shape (JList dss)" and "records_distinct_keys dss"
  shows "\<exists>dss' w'. anonymize_data L (JObj d) ''low'' seed w
             = Inr (JObj (setitem ''datasets'' (JList dss') d), w')
           \<and> list_all2 (dataset_rel (low_item L)) dss dss'"
proof -
  from anonymize_data_rel[OF assms(1-3), of L "''low''" seed w] obtain dss' w' where
    run: "anonymize_data L (JObj d) ''low'' seed w
            = Inr (JObj (setitem ''datasets'' (JList dss') d), w')"
    and rel: "list_all2 (dataset_rel (item_rel L ''low'')) dss dss'"
    by blast
  from rel have "list_all2 (dataset_rel (low_item L)) dss dss'"
    by (rule dataset_rel_mono[rotated]) (rule item_rel_low)
  with run show ?thesis by blast
qed

theorem low_touches_matching_text_only_witness:
  "map_of demo_document ''datasets'' = Some (JList demo_datasets)
   \<and> datasets_shape (JList demo_datasets) \<and> records_distinct_keys demo_datasets
   \<and> (\<exists>dss' w'. anonymize_data demo_library (JObj demo_document) ''low'' (Some 42) (demo_world 0)
             = Inr (JObj (setitem ''datasets'' (JList dss') demo_document), w')
           \<and> list_all2 (dataset_rel (low_item demo_library)) demo_datasets dss')"
  using low_touches_matching_text_only[OF demo_lookup demo_shape demo_distinct,
      of demo_library "Some 42" "demo_world 0"]
    demo_lookup demo_shape demo_distinct
  by blast

subsection \<open>Level \<^verbatim>\<open>medium\<close>\<close>




subsection \<open>Level \<^verbatim>\<open>high\<close>\<close>

text \<open>The identifiers of \<open>m + n\<close> calls are those of \<open>m\<close> calls followed by those of \<open>n\<close>
  calls from the state the first \<open>m\<close> left.\<close>

lemma uuid4_calls_Suc_fst:
  "fst (uuid4_calls L f (Suc n))
     = fst (fake_uuid4 L f) # fst (uuid4_calls L (snd (fake_uuid4 L f)) n)"
  by (simp split: prod.splits)

lemma uuid4_calls_Suc_snd:
  "snd (uuid4_calls L f (Suc n)) = snd (uuid4_calls L (snd (fake_uuid4 L f)) n)"
  by (simp split: prod.splits)

lemma uuid4_calls_add_fst:
  "fst (uuid4_calls L f (m + n))
     = fst (uuid4_calls L f m) @ fst (uuid4_calls L (snd (uuid4_calls L f m)) n)"
proof (induction m arbitrary: f)
  case 0
  then show ?case by simp
next
  case (Suc m)
  have "fst (uuid4_calls L f (Suc (m + n)))
      = fst (fake_uuid4 L f) # fst (uuid4_calls L (snd (fake_uuid4 L f)) (m + n))"
    by (rule uuid4_calls_Suc_fst)
  with Suc.IH[of "snd (fake_uuid4 L f)"] show ?case
    by (simp only: add_Suc uuid4_calls_Suc_fst uuid4_calls_Suc_snd append_Cons)
qed

lemma uuid4_calls_add_snd:
  "snd (uuid4_calls L f (m + n)) = snd (uuid4_calls L (snd (uuid4_calls L f m)) n)"
proof (induction m arbitrary: f)
  case 0
  then show ?case by simp
next
  case (Suc m)
  from Suc.IH[of "snd (fake_uuid4 L f)"] show ?case
    by (simp only: add_Suc uuid4_calls_Suc_snd)
qed

lemma substitute_high:
  "substitute L ''high'' k v w
     = (Some (JStr (fst (fake_uuid4 L (faker w)))), w\<lparr>faker := snd (fake_uuid4 L (faker w))\<rparr>)"
  by (simp add: substitute_def call_fake_def split: prod.splits)

lemma items_loop_high:
  assumes "distinct (map fst items)" and "fst ` set pre \<inter> fst ` set items = {}"
  shows "\<exists>items'. items_loop L ''high'' items (pre @ items, w)
             = (pre @ items', w\<lparr>faker := snd (uuid4_calls L (faker w) (length items))\<rparr>)
           \<and> map snd items' = map JStr (fst (uuid4_calls L (faker w) (length items)))"
  using assms
proof (induction items arbitrary: pre w)
  case Nil
  then show ?case by simp
next
  case (Cons p items)
  obtain k v where p: "p = (k, v)" by (cases p)
  define u where "u = fst (fake_uuid4 L (faker w))"
  define w1 where "w1 = w\<lparr>faker := snd (fake_uuid4 L (faker w))\<rparr>"
  from Cons.prems p have fresh: "k \<notin> fst ` set pre" by auto
  have step: "anonymize_item L ''high'' k v (pre @ (k, v) # items, w)
                = ((pre @ [(k, JStr u)]) @ items, w1)"
    using fresh by (simp add: anonymize_item_def substitute_high u_def w1_def setitem_append_fresh)
  from Cons.prems p have d: "distinct (map fst items)"
    and disj: "fst ` set (pre @ [(k, JStr u)]) \<inter> fst ` set items = {}"
    by auto
  from Cons.IH[OF d disj, of w1] obtain items' where
    run: "items_loop L ''high'' items ((pre @ [(k, JStr u)]) @ items, w1)
            = ((pre @ [(k, JStr u)]) @ items',
               w1\<lparr>faker := snd (uuid4_calls L (faker w1) (length items))\<rparr>)"
    and vals: "map snd items' = map JStr (fst (uuid4_calls L (faker w1) (length items)))"
    by blast
  have f1: "faker w1 = snd (fake_uuid4 L (faker w))" by (simp add: w1_def)
  have wfin: "w1\<lparr>faker := snd (uuid4_calls L (faker w1) (length items))\<rparr>
              = w\<lparr>faker := snd (uuid4_calls L (faker w) (length (p # items)))\<rparr>"
    by (simp add: f1 uuid4_calls_Suc_snd w1_def del: uuid4_calls.simps)
  have vfin: "map snd ((k, JStr u) # items')
              = map JStr (fst (uuid4_calls L (faker w) (length (p # items))))"
    using vals by (simp add: f1 uuid4_calls_Suc_fst u_def del: uuid4_calls.simps)
  from run step wfin have "items_loop L ''high'' (p # items) (pre @ p # items, w)
      = (pre @ (k, JStr u) # items', w\<lparr>faker := snd (uuid4_calls L (faker w) (length (p # items)))\<rparr>)"
    by (simp add: p)
  with vfin show ?case by blast
qed

lemma records_loop_high:
  assumes "list_all isinstance_dict rs" and "list_all distinct_keys rs"
  shows "\<exists>rs'. records_loop L ''high'' rs w
             = Inr (rs', w\<lparr>faker := snd (uuid4_calls L (faker w)
                                          (length (concat (map record_items rs))))\<rparr>)
           \<and> map snd (concat (map record_items rs'))
               = map JStr (fst (uuid4_calls L (faker w) (length (concat (map record_items rs)))))"
  using assms
proof (induction rs arbitrary: w)
  case Nil
  then show ?case by simp
next
  case (Cons a rs)
  from Cons.prems obtain r where a: "a = JObj r" and dr: "distinct (map fst r)"
    by (cases a) (auto simp: distinct_keys_def)
  define w1 where "w1 = w\<lparr>faker := snd (uuid4_calls L (faker w) (length r))\<rparr>"
  from items_loop_high[OF dr, of "[]" L w] obtain r' where
    r': "anonymize_record L ''high'' r w = (r', w1)"
    and v1: "map snd r' = map JStr (fst (uuid4_calls L (faker w) (length r)))"
    by (auto simp: anonymize_record_def w1_def)
  from Cons.prems have "list_all isinstance_dict rs" "list_all distinct_keys rs" by simp_all
  from Cons.IH[OF this, of w1] obtain rs' where
    run: "records_loop L ''high'' rs w1
            = Inr (rs', w1\<lparr>faker := snd (uuid4_calls L (faker w1)
                                         (length (concat (map record_items rs))))\<rparr>)"
    and v2: "map snd (concat (map record_items rs'))
               = map JStr (fst (uuid4_calls L (faker w1) (length (concat (map record_items rs)))))"
    by blast
  have f1: "faker w1 = snd (uuid4_calls L (faker w) (length r))" by (simp add: w1_def)
  have len: "length (concat (map record_items (a # rs)))
               = length r + length (concat (map record_items rs))"
    by (simp add: a record_items_def)
  have wfin: "w1\<lparr>faker := snd (uuid4_calls L (faker w1) (length (concat (map record_items rs))))\<rparr>
              = w\<lparr>faker := snd (uuid4_calls L (faker w)
                                  (length (concat (map record_items (a # rs)))))\<rparr>"
    by (simp only: len uuid4_calls_add_snd f1) (simp add: w1_def)
  have vfin: "map snd (concat (map record_items (JObj r' # rs')))
              = map JStr (fst (uuid4_calls L (faker w)
                                 (length (concat (map record_items (a # rs))))))"
    using v1 v2 by (simp only: len uuid4_calls_add_fst f1) (simp add: record_items_def)
  from r' run wfin have "records_loop L ''high'' (a # rs) w
      = Inr (JObj r' # rs', w\<lparr>faker := snd (uuid4_calls L (faker w)
                                  (length (concat (map record_items (a # rs)))))\<rparr>)"
    by (simp add: a)
  with vfin show ?case by blast
qed

lemma datasets_loop_high:
  assumes "datasets_shape (JList dss)" and "records_distinct_keys dss"
  shows "\<exists>dss'. datasets_loop L ''high'' dss w
             = Inr (dss', w\<lparr>faker := snd (uuid4_calls L (faker w) (length (all_items dss)))\<rparr>)
           \<and> map snd (all_items dss')
               = map JStr (fst (uuid4_calls L (faker w) (length (all_items dss))))"
  using assms
proof (induction dss arbitrary: w)
  case Nil
  then show ?case by (simp add: all_items_def)
next
  case (Cons a dss)
  from Cons.prems obtain rs where a: "a = JList rs"
    and rs: "list_all isinstance_dict rs" "list_all distinct_keys rs"
    by (cases a) (auto simp: datasets_shape_def records_distinct_keys_def)
  define n where "n = length (concat (map record_items rs))"
  define w1 where "w1 = w\<lparr>faker := snd (uuid4_calls L (faker w) n)\<rparr>"
  from records_loop_high[OF rs, of L w] obtain rs' where
    rs': "records_loop L ''high'' rs w = Inr (rs', w1)"
    and v1: "map snd (concat (map record_items rs')) = map JStr (fst (uuid4_calls L (faker w) n))"
    by (auto simp: w1_def n_def)
  from Cons.prems have "datasets_shape (JList dss)" "records_distinct_keys dss"
    by (simp_all add: datasets_shape_def records_distinct_keys_def)
  from Cons.IH[OF this, of w1] obtain dss' where
    run: "datasets_loop L ''high'' dss w1
            = Inr (dss', w1\<lparr>faker := snd (uuid4_calls L (faker w1) (length (all_items dss)))\<rparr>)"
    and v2: "map snd (all_items dss')
               = map JStr (fst (uuid4_calls L (faker w1) (length (all_items dss))))"
    by blast
  have f1: "faker w1 = snd (uuid4_calls L (faker w) n)" by (simp add: w1_def)
  have len: "length (all_items (a # dss)) = n + length (all_items dss)"
    by (simp add: a all_items_def dataset_items_def n_def)
  have wfin: "w1\<lparr>faker := snd (uuid4_calls L (faker w1) (length (all_items dss)))\<rparr>
              = w\<lparr>faker := snd (uuid4_calls L (faker w) (length (all_items (a # dss))))\<rparr>"
    by (simp only: len uuid4_calls_add_snd f1) (simp add: w1_def)
  have vfin: "map snd (all_items (JList rs' # dss'))
              = map JStr (fst (uuid4_calls L (faker w) (length (all_items (a # dss)))))"
    using v1 v2 by (simp only: len uuid4_calls_add_fst f1) (simp add: all_items_def dataset_items_def)
  from rs' run wfin have "datasets_loop L ''high'' (a # dss) w
      = Inr (JList rs' # dss', w\<lparr>faker := snd (uuid4_calls L (faker w)
                                     (length (all_items (a # dss))))\<rparr>)"
    by (simp add: a)
  with vfin show ?case by blast
qed

text \<open>
  \<^bold>\<open>C4.\<close> At level \<^verbatim>\<open>high\<close>, with \<^verbatim>\<open>fake.uuid4()\<close> returning strings in the format of a unique
  identifier, every pair of every record of every dataset keeps its key and gets as value a
  string a call of \<^verbatim>\<open>fake.uuid4()\<close> returned, in that format, whatever the key and whatever
  the type of the value before. Each value is freshly generated: read in the order of the
  loops, the values are the identifiers of as many successive calls of \<^verbatim>\<open>fake.uuid4()\<close> as
  the datasets hold pairs, the first from the state \<^verbatim>\<open>Faker.seed(seed)\<close> left, each next one
  from the state the call before left; the generator ends in the state after the last call.
\<close>

theorem high_replaces_every_value:
  assumes "map_of d ''datasets'' = Some (JList dss)"
    and "datasets_shape (JList dss)" and "records_distinct_keys dss"
    and "uuid4_contract L"
  shows "\<exists>dss' w'. anonymize_data L (JObj d) ''high'' seed w
             = Inr (JObj (setitem ''datasets'' (JList dss') d), w')
           \<and> list_all2 (dataset_rel (high_item L)) dss dss'
           \<and> map snd (all_items dss')
               = map JStr (fst (uuid4_calls L
                                  (case seed of None \<Rightarrow> os_entropy w | Some n \<Rightarrow> Faker_seed L n)
                                  (length (all_items dss))))
           \<and> faker w'
               = snd (uuid4_calls L
                        (case seed of None \<Rightarrow> os_entropy w | Some n \<Rightarrow> Faker_seed L n)
                        (length (all_items dss)))"
proof -
  define w0 where "w0 = seed_generators L seed w"
  have f0: "faker w0 = (case seed of None \<Rightarrow> os_entropy w | Some n \<Rightarrow> Faker_seed L n)"
    by (simp add: w0_def seed_generators_def split: option.splits)
  from datasets_loop_high[OF assms(2,3), of L w0] obtain dss' where
    run: "datasets_loop L ''high'' dss w0
            = Inr (dss', w0\<lparr>faker := snd (uuid4_calls L (faker w0) (length (all_items dss)))\<rparr>)"
    and vals: "map snd (all_items dss')
                 = map JStr (fst (uuid4_calls L (faker w0) (length (all_items dss))))"
    by blast
  from datasets_loop_rel[OF assms(2,3), of L "''high''" w0] run
  have "list_all2 (dataset_rel (item_rel L ''high'')) dss dss'"
    by auto
  then have rel: "list_all2 (dataset_rel (high_item L)) dss dss'"
    by (rule dataset_rel_mono[rotated]) (rule item_rel_high[OF assms(4)])
  let ?w' = "w0\<lparr>faker := snd (uuid4_calls L (faker w0) (length (all_items dss)))\<rparr>"
  have res: "anonymize_data L (JObj d) ''high'' seed w
               = Inr (JObj (setitem ''datasets'' (JList dss') d), ?w')"
    using assms(1) run by (simp add: anonymize_data_def w0_def)
  have fin: "faker ?w' = snd (uuid4_calls L (faker w0) (length (all_items dss)))"
    by simp
  from res rel vals fin show ?thesis
    unfolding f0 by blast
qed

text \<open>On the example document, seeded with 42: five pairs, five different identifiers,
  and the generator five states further.\<close>

theorem high_replaces_every_value_witness:
  "map_of demo_document ''datasets'' = Some (JList demo_datasets)
   \<and> datasets_shape (JList demo_datasets) \<and> records_distinct_keys demo_datasets
   \<and> uuid4_contract demo_uuid_library
   \<and> (\<exists>dss' w'. anonymize_data demo_uuid_library (JObj demo_document) ''high'' (Some 42)
                   (demo_world 0)
             = Inr (JObj (setitem ''datasets'' (JList dss') demo_document), w')
           \<and> list_all2 (dataset_rel (high_item demo_uuid_library)) demo_datasets dss'
           \<and> map snd (all_items dss')
               = [JStr ''01234567-89ab-4cde-8f01-23456789abca'',
                  JStr ''01234567-89ab-4cde-8f01-23456789abcb'',
                  JStr ''01234567-89ab-4cde-8f01-23456789abcc'',
                  JStr ''01234567-89ab-4cde-8f01-23456789abcd'',
                  JStr ''01234567-89ab-4cde-8f01-23456789abce'']
           \<and> faker w' = 47)"
proof -
  have seeded: "Faker_seed demo_uuid_library 42 = 42"
    by (simp add: demo_uuid_library_def demo_library_def)
  from high_replaces_every_value[OF demo_lookup demo_shape demo_distinct
      demo_uuid_library_contract, of "Some 42" "demo_world 0"]
  have "\<exists>dss' w'. anonymize_data demo_uuid_library (JObj demo_document) ''high'' (Some 42)
                   (demo_world 0)
             = Inr (JObj (setitem ''datasets'' (JList dss') demo_document), w')
           \<and> list_all2 (dataset_rel (high_item demo_uuid_library)) demo_datasets dss'
           \<and> map snd (all_items dss')
               = [JStr ''01234567-89ab-4cde-8f01-23456789abca'',
                  JStr ''01234567-89ab-4cde-8f01-23456789abcb'',
                  JStr ''01234567-89ab-4cde-8f01-23456789abcc'',
                  JStr ''01234567-89ab-4cde-8f01-23456789abcd'',
                  JStr ''01234567-89ab-4cde-8f01-23456789abce'']
           \<and> faker w' = 47"
    by (simp add: seeded demo_all_items demo_uuid4_calls del: uuid4_calls.simps)
  with demo_lookup demo_shape demo_distinct demo_uuid_library_contract
  show ?thesis by blast
qed

subsection \<open>Validation\<close>

text \<open>
  \<^bold>\<open>C6.\<close> For a document with a \<^verbatim>\<open>datasets\<close> key, at any level and seed,
  \<^verbatim>\<open>anonymize_data\<close> raises \<^verbatim>\<open>ValueError\<close> exactly when the value of \<^verbatim>\<open>datasets\<close> is not a
  list of lists of mappings, and when it is one the run returns a document: it raises
  nothing.
\<close>

theorem datasets_validation:
  assumes "map_of d ''datasets'' = Some v"
  shows "((\<exists>msg. anonymize_data L (JObj d) level seed w = Inl (ValueError msg))
            \<longleftrightarrow> \<not> datasets_shape v)
         \<and> (datasets_shape v \<longrightarrow> (\<exists>r. anonymize_data L (JObj d) level seed w = Inr r))"
proof (cases v)
  case (JList dss)
  from datasets_loop_validation[where L=L and level=level and dss=dss
      and w="seed_generators L seed w"]
  show ?thesis
    using assms by (auto simp: anonymize_data_def JList split: sum.splits)
qed (use assms in \<open>simp_all add: anonymize_data_def datasets_shape_def\<close>)

text \<open>A dataset holding the number 1 where a record should be, and the example
  document.\<close>

theorem datasets_validation_witness:
  "map_of [(''datasets'', JList [JList [JInt 1]])] ''datasets'' = Some (JList [JList [JInt 1]])
   \<and> \<not> datasets_shape (JList [JList [JInt 1]])
   \<and> (\<exists>msg. anonymize_data demo_library (JObj [(''datasets'', JList [JList [JInt 1]])])
               ''high'' None (demo_world 0) = Inl (ValueError msg))
   \<and> map_of demo_document ''datasets'' = Some (JList demo_datasets)
   \<and> datasets_shape (JList demo_datasets)
   \<and> (\<exists>r. anonymize_data demo_library (JObj demo_document) ''high'' None (demo_world 0) = Inr r)"
proof -
  have a: "map_of [(''datasets'', JList [JList [JInt 1]])] ''datasets''
             = Some (JList [JList [JInt 1]])"
    by simp
  have b: "\<not> datasets_shape (JList [JList [JInt 1]])"
    by (simp add: datasets_shape_def)
  from datasets_validation[OF a, of demo_library "''high''" None "demo_world 0"] b
  have c: "\<exists>msg. anonymize_data demo_library (JObj [(''datasets'', JList [JList [JInt 1]])])
               ''high'' None (demo_world 0) = Inl (ValueError msg)"
    by blast
  from datasets_validation[OF demo_lookup, of demo_library "''high''" None "demo_world 0"]
    demo_shape
  have d: "\<exists>r. anonymize_data demo_library (JObj demo_document) ''high'' None (demo_world 0)
             = Inr r"
    by blast
  from a b c d demo_lookup demo_shape show ?thesis by blast
qed

subsection \<open>What the anonymizer leaves alone\<close>

text \<open>
  \<^bold>\<open>C9.\<close> For a document that passes the validation (no \<^verbatim>\<open>datasets\<close> key, or a list of
  lists of mappings under it), at every level \<^verbatim>\<open>anonymize_data\<close> returns a document with
  the same keys in the same order and the same value under every key other than
  \<^verbatim>\<open>datasets\<close>, \<^verbatim>\<open>relationships\<close> among them; under \<^verbatim>\<open>datasets\<close> there are as many datasets,
  as many records in each dataset, and the same keys in each record.
\<close>

theorem anonymize_data_frame:
  assumes "passes_validation d"
  shows "\<exists>d' w'. anonymize_data L (JObj d) level seed w = Inr (JObj d', w')
           \<and> map fst d' = map fst d
           \<and> (\<forall>k. k \<noteq> ''datasets'' \<longrightarrow> map_of d' k = map_of d k)
           \<and> rel_option same_frame (map_of d ''datasets'') (map_of d' ''datasets'')"
proof (cases "map_of d ''datasets''")
  case None
  then show ?thesis by (simp add: anonymize_data_def)
next
  case (Some v)
  with assms obtain dss where v: "v = JList dss" and shape: "datasets_shape (JList dss)"
    by (cases v) (auto simp: passes_validation_def datasets_shape_def)
  from datasets_loop_keys[OF shape, of L level "seed_generators L seed w"] obtain dss' w' where
    run: "datasets_loop L level dss (seed_generators L seed w) = Inr (dss', w')"
    and rel: "list_all2 (dataset_rel same_key) dss dss'"
    by blast
  let ?d' = "setitem ''datasets'' (JList dss') d"
  from Some have "''datasets'' \<in> fst ` set d"
    by (metis map_of_SomeD fst_conv image_eqI)
  then have keys: "map fst ?d' = map fst d" by (rule keys_setitem)
  have res: "anonymize_data L (JObj d) level seed w = Inr (JObj ?d', w')"
    using Some v run by (simp add: anonymize_data_def)
  have others: "\<forall>k. k \<noteq> ''datasets'' \<longrightarrow> map_of ?d' k = map_of d k"
    by (simp add: map_of_setitem)
  have "rel_option same_frame (map_of d ''datasets'') (map_of ?d' ''datasets'')"
    using Some v rel by (simp add: map_of_setitem same_frame_def)
  with res keys others show ?thesis by blast
qed

theorem anonymize_data_frame_witness:
  "passes_validation demo_document
   \<and> (\<exists>d' w'. anonymize_data demo_library (JObj demo_document) ''high'' (Some 42) (demo_world 0)
                 = Inr (JObj d', w')
           \<and> map fst d' = map fst demo_document
           \<and> (\<forall>k. k \<noteq> ''datasets'' \<longrightarrow> map_of d' k = map_of demo_document k)
           \<and> rel_option same_frame (map_of demo_document ''datasets'') (map_of d' ''datasets''))"
proof -
  have p: "passes_validation demo_document"
    by (simp add: passes_validation_def demo_lookup demo_shape)
  from anonymize_data_frame[OF p, of demo_library "''high''" "Some 42" "demo_world 0"] p
  show ?thesis by blast
qed

section \<open>The whole run and the seed\<close>

text \<open>
  \<^bold>\<open>C1.\<close> The claim: with \<^verbatim>\<open>remove_non_essential\<close> and a fixed seed, two runs retain the
  same entries. \<^verbatim>\<open>main\<close> calls \<^verbatim>\<open>simplify_relationships\<close> first; the seed reaches the
  generator in \<^verbatim>\<open>anonymize_data\<close>, after the retention filter has drawn its numbers from the
  state the process started with. Two runs on the same document with
  \<^verbatim>\<open>--remove-non-essential --anonymize-data --seed 42\<close>, started in two states of the
  process-wide generator: one keeps the entry, the other drops it.
\<close>

theorem seed_is_applied_after_retention_filter:
  "main demo_library demo_args (demo_world 0)
       (JObj [(''relationships'', JList [JList [JStr ''a'', JStr ''b'']])])
     = Saved (JObj [(''relationships'', JList [JList [JStr ''a'', JStr ''b'']])])
   \<and> main demo_library demo_args (demo_world 1)
       (JObj [(''relationships'', JList [JList [JStr ''a'', JStr ''b'']])])
     = Saved (JObj [(''relationships'', JList [])])"
  by (simp add: main_def demo_args_def simplify_relationships_def anonymize_data_def
      seed_generators_def demo_library_def demo_world_def)

end
